theory Spec2Isabelle
  imports Main "HOL-Library.Multiset"
begin

section \<open>The dashboard component of src/app/dashboard/page.tsx\<close>

text \<open>
  The component keeps eight pieces of React state, fetches a GitHub profile and its
  repositories, sorts the repositories, writes a summary sentence, and derives the
  language tallies and the current page of the table from the state at every render.
  Each of these is embedded below as a function on explicit values. JavaScript numbers
  that hold counts, indices and time values are integers well inside the range where
  doubles are exact, and are modelled as \<open>int\<close>; a time value that is \<open>NaN\<close> is \<open>None\<close>.
\<close>

subsection \<open>Records of the two interfaces\<close>

text \<open>
  \<open>GitHubData\<close> as declared, with one more field: \<open>generateAiSummary\<close> reads
  \<open>userData.name\<close>, which the interface does not declare but the decoded JSON may
  carry. It is \<open>profile_name\<close> here (\<open>None\<close> when absent or null).
\<close>

record GitHubData =
  login :: string
  profile_name :: "string option"
  avatar_url :: string
  html_url :: string
  public_repos :: int
  followers :: int
  following :: int
  bio :: string
  location :: string
  created_at :: string
  repos_url :: string

text \<open>\<open>RepoData\<close>; the field \<open>id\<close> is \<open>repo_id\<close> here, \<open>null\<close> is \<open>None\<close>.\<close>

record RepoData =
  repo_id :: int
  name :: string
  stargazers_count :: int
  forks_count :: int
  language :: "string option"
  homepage :: "string option"
  updated_at :: string

subsection \<open>What the browser provides\<close>

text \<open>
  The component calls built-ins whose results depend on the engine and its settings:
  \<open>new Date(s)\<close> on a string (only the ISO format is fixed by the language; anything
  else an engine may parse its own way or reject), the local time zone that
  \<open>getFullYear\<close> reads, and the source text an engine prints for a built-in function.
  They are the three fields of a platform; every general theorem below holds for every
  platform.
\<close>

record platform =
  parseDate :: "string \<Rightarrow> int option"
  localTZA :: "int \<Rightarrow> int"
  fnSource :: "string \<Rightarrow> string"

definition msPerDay :: int where
  "msPerDay = 86400000"

text \<open>The day number of 1 January of year \<open>y\<close>, as the language standard defines it.\<close>

definition DayFromYear :: "int \<Rightarrow> int" where
  "DayFromYear y =
     365 * (y - 1970) + (y - 1969) div 4 - (y - 1901) div 100 + (y - 1601) div 400"

text \<open>
  The standard's \<open>YearFromTime t\<close> is the largest \<open>y\<close> whose first day starts at or
  before \<open>t\<close>. It is computed from an estimate that is off by at most one year
  (\<open>YearFromTime_correct\<close> below proves that the result is that year).
\<close>

definition YearFromDay :: "int \<Rightarrow> int" where
  "YearFromDay d =
     (let y0 = 1970 + (400 * d) div 146097
      in if DayFromYear (y0 + 1) \<le> d then y0 + 1
         else if DayFromYear y0 \<le> d then y0
         else y0 - 1)"

definition YearFromTime :: "int \<Rightarrow> int" where
  "YearFromTime t = YearFromDay (t div msPerDay)"

definition getTime :: "platform \<Rightarrow> string \<Rightarrow> int option" where
  "getTime P s = parseDate P s"

definition getFullYear :: "platform \<Rightarrow> string \<Rightarrow> int option" where
  "getFullYear P s =
     (case parseDate P s of
        None \<Rightarrow> None
      | Some t \<Rightarrow> Some (YearFromTime (t + localTZA P t)))"

subsection \<open>Numbers as text\<close>

fun showNat :: "nat \<Rightarrow> string" where
  "showNat n =
     (if n < 10 then [char_of (48 + n)]
      else showNat (n div 10) @ [char_of (48 + n mod 10)])"

declare showNat.simps [simp del]

definition showInt :: "int \<Rightarrow> string" where
  "showInt i = (if i < 0 then CHR ''-'' # showNat (nat (- i)) else showNat (nat i))"

text \<open>A number inside a template literal; \<open>None\<close> is \<open>NaN\<close>.\<close>

definition showNumber :: "int option \<Rightarrow> string" where
  "showNumber v = (case v of None \<Rightarrow> ''NaN'' | Some i \<Rightarrow> showInt i)"

subsection \<open>Sorting the repositories\<close>

text \<open>
  The comparator of the source,
  \<^verbatim>\<open>(a, b) => new Date(b.updated_at).getTime() - new Date(a.updated_at).getTime()\<close>.
  The difference of two time values has the sign of the integer difference; with an
  invalid date on either side it is \<open>NaN\<close>.
\<close>

definition byUpdatedDesc :: "platform \<Rightarrow> RepoData \<Rightarrow> RepoData \<Rightarrow> int option" where
  "byUpdatedDesc P a b =
     (case getTime P (updated_at b) of
        None \<Rightarrow> None
      | Some tb \<Rightarrow>
          (case getTime P (updated_at a) of
             None \<Rightarrow> None
           | Some ta \<Rightarrow> Some (tb - ta)))"

text \<open>\<open>Array.prototype.sort\<close> reads a comparator result of \<open>NaN\<close> as \<open>0\<close>.\<close>

definition sortCompare :: "('a \<Rightarrow> 'a \<Rightarrow> int option) \<Rightarrow> 'a \<Rightarrow> 'a \<Rightarrow> int" where
  "sortCompare cmp x y = (case cmp x y of None \<Rightarrow> 0 | Some v \<Rightarrow> v)"

text \<open>
  \<open>Array.prototype.sort\<close> is stable and orders by the comparator. It is modelled as a
  stable insertion sort: \<open>x\<close>, which stood before every element of \<open>ys\<close>, moves behind
  \<open>y\<close> only when the comparator says \<open>x\<close> is greater. When the comparator is not
  consistent (here: when some date is invalid, which compares equal to everything) the
  language leaves the order to the engine, so the theorems about the order are stated
  for arrays whose dates all parse; those about the elements hold always.
\<close>

fun insertBy :: "('a \<Rightarrow> 'a \<Rightarrow> int) \<Rightarrow> 'a \<Rightarrow> 'a list \<Rightarrow> 'a list" where
  "insertBy c x [] = [x]"
| "insertBy c x (y # ys) = (if c x y \<le> 0 then x # y # ys else y # insertBy c x ys)"

definition sortBy :: "('a \<Rightarrow> 'a \<Rightarrow> int option) \<Rightarrow> 'a list \<Rightarrow> 'a list" where
  "sortBy cmp xs = foldr (insertBy (sortCompare cmp)) xs []"

definition sortRepos :: "platform \<Rightarrow> RepoData list \<Rightarrow> RepoData list" where
  "sortRepos P reposData = sortBy (byUpdatedDesc P) reposData"

text \<open>
  \<open>sort\<close> rearranges the array it is called on and returns that same array. A store
  maps references to array contents; \<open>Array_sort\<close> is the call \<open>reposData.sort(...)\<close>
  on the array at reference \<open>a\<close>: the new store and the reference returned.
\<close>

type_synonym ref = nat
type_synonym store = "ref \<Rightarrow> RepoData list"

definition Array_sort :: "platform \<Rightarrow> store \<Rightarrow> ref \<Rightarrow> store \<times> ref" where
  "Array_sort P h a = (h(a := sortRepos P (h a)), a)"

subsection \<open>The summary sentence\<close>

text \<open>
  \<open>generateAiSummary\<close> builds one template literal and stores it with
  \<open>setAiSummary\<close>; the function here returns the text, and the caller stores it.
  \<open>userData.name || userData.login\<close> takes the login when the name is absent, null or
  empty. \<open>repos[0]?.name\<close> and \<open>repos[0]?.stargazers_count\<close> are \<open>undefined\<close> when
  the list is empty, which a template literal prints as the word \<open>undefined\<close>.
\<close>

definition nameOrLogin :: "GitHubData \<Rightarrow> string" where
  "nameOrLogin userData =
     (case profile_name userData of
        None \<Rightarrow> login userData
      | Some n \<Rightarrow> if n = [] then login userData else n)"

definition generateAiSummary :: "platform \<Rightarrow> GitHubData \<Rightarrow> RepoData list \<Rightarrow> string" where
  "generateAiSummary P userData rs =
     ''This GitHub profile belongs to '' @ nameOrLogin userData
     @ '', who joined GitHub in '' @ showNumber (getFullYear P (created_at userData))
     @ ''. They have '' @ showInt (public_repos userData)
     @ '' public repositories, '' @ showInt (followers userData)
     @ '' followers, and are following '' @ showInt (following userData)
     @ '' users. Their most popular repository is '' @ [CHR 0x22]
     @ (case rs of [] \<Rightarrow> ''undefined'' | r # _ \<Rightarrow> name r)
     @ [CHR 0x22] @ '' with ''
     @ (case rs of [] \<Rightarrow> ''undefined'' | r # _ \<Rightarrow> showInt (stargazers_count r))
     @ '' stars.''"

subsection \<open>The language tallies\<close>

text \<open>
  The values that \<open>(acc[k] || 0) + 1\<close> can meet. The accumulator is a plain object
  literal, so a read of a key it does not own falls through to \<open>Object.prototype\<close>:
  for the names listed in \<open>objectPrototypeFns\<close> it finds a built-in function, for
  \<open>__proto__\<close> the prototype object itself, and only otherwise \<open>undefined\<close>.
\<close>

datatype prim = UndefinedV | NaNV | NumV int | StrV string

datatype jsval = Prim prim | BuiltinFn string | ObjectPrototype

fun truthy :: "jsval \<Rightarrow> bool" where
  "truthy (Prim UndefinedV) = False"
| "truthy (Prim NaNV) = False"
| "truthy (Prim (NumV n)) = (n \<noteq> 0)"
| "truthy (Prim (StrV s)) = (s \<noteq> [])"
| "truthy (BuiltinFn k) = True"
| "truthy ObjectPrototype = True"

fun ToPrimitive :: "platform \<Rightarrow> jsval \<Rightarrow> prim" where
  "ToPrimitive P (Prim p) = p"
| "ToPrimitive P (BuiltinFn k) = StrV (fnSource P k)"
| "ToPrimitive P ObjectPrototype = StrV ''[object Object]''"

fun ToString :: "prim \<Rightarrow> string" where
  "ToString UndefinedV = ''undefined''"
| "ToString NaNV = ''NaN''"
| "ToString (NumV n) = showInt n"
| "ToString (StrV s) = s"

text \<open>The operator \<open>+\<close> on two primitives: text if either side is text, else a number.\<close>

fun addPrim :: "prim \<Rightarrow> prim \<Rightarrow> prim" where
  "addPrim (StrV s) b = StrV (s @ ToString b)"
| "addPrim a (StrV s) = StrV (ToString a @ s)"
| "addPrim (NumV m) (NumV n) = NumV (m + n)"
| "addPrim a b = NaNV"

definition jsAdd :: "platform \<Rightarrow> jsval \<Rightarrow> jsval \<Rightarrow> prim" where
  "jsAdd P x y = addPrim (ToPrimitive P x) (ToPrimitive P y)"

text \<open>
  An object is the list of its own properties in the order of their creation; its
  prototype is \<open>Object.prototype\<close>. Every value stored below is the result of a \<open>+\<close>,
  hence a primitive.
\<close>

type_synonym jsobject = "(string \<times> prim) list"

definition objectPrototypeFns :: "string list" where
  "objectPrototypeFns =
     [''constructor'', ''__defineGetter__'', ''__defineSetter__'', ''hasOwnProperty'',
      ''__lookupGetter__'', ''__lookupSetter__'', ''isPrototypeOf'',
      ''propertyIsEnumerable'', ''toString'', ''valueOf'', ''toLocaleString'']"

definition getProp :: "jsobject \<Rightarrow> string \<Rightarrow> jsval" where
  "getProp obj k =
     (case map_of obj k of
        Some v \<Rightarrow> Prim v
      | None \<Rightarrow>
          if k = ''__proto__'' then ObjectPrototype
          else if k \<in> set objectPrototypeFns then BuiltinFn k
          else Prim UndefinedV)"

fun putOwn :: "string \<Rightarrow> prim \<Rightarrow> jsobject \<Rightarrow> jsobject" where
  "putOwn k v [] = [(k, v)]"
| "putOwn k v (p # ps) = (if fst p = k then (k, v) # ps else p # putOwn k v ps)"

text \<open>
  \<open>acc[k] = v\<close>: an own property is overwritten in place, a new one is added last.
  For \<open>__proto__\<close> the assignment reaches the inherited setter, which ignores a value
  that is a primitive: the object stays as it was.
\<close>

definition setProp :: "jsobject \<Rightarrow> string \<Rightarrow> prim \<Rightarrow> jsobject" where
  "setProp obj k v =
     (if k = ''__proto__'' \<and> map_of obj k = None then obj else putOwn k v obj)"

text \<open>The callback of \<open>repos.reduce\<close>; \<open>if (repo.language)\<close> skips null and the empty string.\<close>

definition countLanguage :: "platform \<Rightarrow> jsobject \<Rightarrow> RepoData \<Rightarrow> jsobject" where
  "countLanguage P acc repo =
     (case language repo of
        None \<Rightarrow> acc
      | Some l \<Rightarrow>
          if l = [] then acc
          else setProp acc l
                 (jsAdd P (if truthy (getProp acc l) then getProp acc l else Prim (NumV 0))
                          (Prim (NumV 1))))"

definition languageUsage :: "platform \<Rightarrow> RepoData list \<Rightarrow> jsobject" where
  "languageUsage P rs = foldl (countLanguage P) [] rs"

text \<open>
  \<open>Object.keys\<close> lists the own keys that are array indices (canonical decimal numerals
  up to \<open>2^32 - 2\<close>) first, in ascending numeric order, and then the other keys in the
  order of their creation.
\<close>

definition isDigit :: "char \<Rightarrow> bool" where
  "isDigit c = (48 \<le> (of_char c :: nat) \<and> (of_char c :: nat) \<le> 57)"

definition digitsValue :: "string \<Rightarrow> int" where
  "digitsValue k = foldl (\<lambda>acc c. 10 * acc + (of_char c - 48)) 0 k"

definition isArrayIndex :: "string \<Rightarrow> bool" where
  "isArrayIndex k =
     (k \<noteq> [] \<and> list_all isDigit k \<and> (k = ''0'' \<or> take 1 k \<noteq> ''0'')
      \<and> digitsValue k \<le> 4294967294)"

definition Object_keys :: "jsobject \<Rightarrow> string list" where
  "Object_keys obj =
     sort_key digitsValue (filter isArrayIndex (map fst obj))
     @ filter (\<lambda>k. \<not> isArrayIndex k) (map fst obj)"

text \<open>
  One entry of \<open>donutChartData\<close>; its fields \<open>language\<close> and \<open>count\<close> are
  \<open>tally_language\<close> and \<open>tally_count\<close> here. \<open>rnd i\<close> stands for the value of
  \<open>Math.floor(Math.random() * 50)\<close> drawn for entry \<open>i\<close>.
\<close>

record LanguageTally =
  tally_language :: string
  tally_count :: jsval
  fill :: string

definition donutChartData :: "(nat \<Rightarrow> nat) \<Rightarrow> jsobject \<Rightarrow> LanguageTally list" where
  "donutChartData rnd usage =
     map (\<lambda>(i, key).
            \<lparr>tally_language = key, tally_count = getProp usage key,
             fill = ''hsl(0, 0%, '' @ showNat (rnd i + 10) @ ''%)''\<rparr>)
         (enumerate 0 (Object_keys usage))"

definition totalLanguages :: "platform \<Rightarrow> LanguageTally list \<Rightarrow> prim" where
  "totalLanguages P chart =
     foldl (\<lambda>acc curr. jsAdd P (Prim acc) (tally_count curr)) (NumV 0) chart"

subsection \<open>The state of the component\<close>

text \<open>The eight \<open>useState\<close> cells, \<open>data\<close> being \<open>null\<close> when \<open>None\<close>.\<close>

record ViewState =
  username :: string
  data :: "GitHubData option"
  repos :: "RepoData list"
  error :: string
  loading :: bool
  currentPage :: int
  reposPerPage :: int
  aiSummary :: string

definition initialState :: ViewState where
  "initialState =
     \<lparr>username = [], data = None, repos = [], error = [], loading = True,
      currentPage = 1, reposPerPage = 10, aiSummary = []\<rparr>"

subsection \<open>The page of the table\<close>

text \<open>
  \<open>Array.prototype.slice\<close> with two arguments: a negative bound counts from the end,
  both bounds are clipped to the array, and a range that ends before it starts is empty.
\<close>

definition slice :: "'a list \<Rightarrow> int \<Rightarrow> int \<Rightarrow> 'a list" where
  "slice xs start fin =
     (let len = int (length xs);
          k = (if start < 0 then max (len + start) 0 else min start len);
          final = (if fin < 0 then max (len + fin) 0 else min fin len)
      in take (nat (final - k)) (drop (nat k) xs))"

definition indexOfLastRepo :: "ViewState \<Rightarrow> int" where
  "indexOfLastRepo s = currentPage s * reposPerPage s"

definition indexOfFirstRepo :: "ViewState \<Rightarrow> int" where
  "indexOfFirstRepo s = indexOfLastRepo s - reposPerPage s"

definition currentRepos :: "ViewState \<Rightarrow> RepoData list" where
  "currentRepos s = slice (repos s) (indexOfFirstRepo s) (indexOfLastRepo s)"

definition paginate :: "int \<Rightarrow> ViewState \<Rightarrow> ViewState" where
  "paginate pageNumber s = s\<lparr>currentPage := pageNumber\<rparr>"

text \<open>
  The length that \<open>Array.from\<close> takes from \<open>Math.ceil(repos.length / reposPerPage)\<close>.
  A page size of \<open>0\<close> gives \<open>NaN\<close> (length \<open>0\<close>) for no repositories and \<open>Infinity\<close>
  otherwise, for which no array is built (\<open>None\<close>); a negative quotient gives length \<open>0\<close>.
\<close>

definition pageCount :: "ViewState \<Rightarrow> nat option" where
  "pageCount s =
     (if reposPerPage s = 0 then (if repos s = [] then Some 0 else None)
      else Some (nat (- ((- int (length (repos s))) div reposPerPage s))))"

text \<open>The page numbers \<open>index + 1\<close> that the buttons pass to \<open>paginate\<close>.\<close>

definition pageButtons :: "ViewState \<Rightarrow> int list option" where
  "pageButtons s =
     (case pageCount s of
        None \<Rightarrow> None
      | Some n \<Rightarrow> Some (map (\<lambda>index. int index + 1) [0..<n]))"

subsection \<open>Fetching\<close>

text \<open>
  What one \<open>fetch\<close> followed by \<open>json()\<close> can come to: the promise rejects with an
  error carrying a message, the response is not ok, or it is ok and decodes to a value
  of the declared interface. The network answers the profile URL and the repository URL.
\<close>

datatype 'a reply = Rejects string | NotOk | Ok 'a

record network =
  getUser :: "string \<Rightarrow> GitHubData reply"
  getRepos :: "string \<Rightarrow> RepoData list reply"

text \<open>
  The \<open>try\<close> block: \<open>Inl\<close> is the message of the error thrown, \<open>Inr\<close> the state after
  the three setters; the second component lists the URLs requested. \<open>reposData\<close> is a
  fresh array: it stands at reference \<open>0\<close> of a store of its own, \<open>Array_sort\<close>
  rearranges it there, and \<open>sortedRepos\<close> is what stands at the reference returned.
\<close>

definition tryBlock ::
  "platform \<Rightarrow> network \<Rightarrow> ViewState \<Rightarrow> (string + ViewState) \<times> string list" where
  "tryBlock P N s =
     (let userUrl = ''https://api.github.com/users/'' @ username s
      in case getUser N userUrl of
           Rejects m \<Rightarrow> (Inl m, [userUrl])
         | NotOk \<Rightarrow> (Inl ''User not found'', [userUrl])
         | Ok userData \<Rightarrow>
             (case getRepos N (repos_url userData) of
                Rejects m \<Rightarrow> (Inl m, [userUrl, repos_url userData])
              | NotOk \<Rightarrow> (Inl ''Repositories not found'', [userUrl, repos_url userData])
              | Ok reposData \<Rightarrow>
                  (let sorted = Array_sort P (\<lambda>r. if r = 0 then reposData else []) 0;
                       sortedRepos = fst sorted (snd sorted)
                   in (Inr (s\<lparr>data := Some userData, repos := sortedRepos,
                              aiSummary := generateAiSummary P userData sortedRepos\<rparr>),
                       [userUrl, repos_url userData]))))"

text \<open>
  \<open>fetchGitHubData\<close>: nothing for an empty username; else the four cells are cleared,
  the \<open>try\<close> block runs, \<open>catch\<close> stores the message, \<open>finally\<close> clears \<open>loading\<close>.
  The result is the state once the function has completed, and the URLs requested.
\<close>

definition fetchGitHubData ::
  "platform \<Rightarrow> network \<Rightarrow> ViewState \<Rightarrow> ViewState \<times> string list" where
  "fetchGitHubData P N s =
     (if username s = [] then (s, [])
      else (let cleared = s\<lparr>error := [], data := None, repos := [], aiSummary := []\<rparr>;
                outcome = tryBlock P N cleared;
                settled = (case fst outcome of
                             Inl message \<Rightarrow> cleared\<lparr>error := message\<rparr>
                           | Inr s' \<Rightarrow> s')
            in (settled\<lparr>loading := False\<rparr>, snd outcome)))"

subsection \<open>What the user can do\<close>

text \<open>
  Typing into the input (\<open>setUsername\<close>), pressing the search button (with the network
  as it answers then), and pressing a page button.
\<close>

datatype action = SetUsername string | Search network | Paginate int

fun step :: "platform \<Rightarrow> ViewState \<Rightarrow> action \<Rightarrow> ViewState" where
  "step P s (SetUsername u) = s\<lparr>username := u\<rparr>"
| "step P s (Search N) = fst (fetchGitHubData P N s)"
| "step P s (Paginate n) = paginate n s"

definition run :: "platform \<Rightarrow> ViewState \<Rightarrow> action list \<Rightarrow> ViewState" where
  "run P s acts = foldl (step P) s acts"


subsection \<open>One platform, for evaluation\<close>

text \<open>
  A platform to evaluate the scenarios on: it reads the two ISO forms \<open>YYYY-MM-DD\<close>
  and \<open>YYYY-MM-DDTHH:mm:ssZ\<close> (the second is what the GitHub API sends) as UTC and
  rejects everything else, its local time is UTC, and it prints built-in functions the
  way V8 does.
\<close>

definition isLeapYear :: "int \<Rightarrow> bool" where
  "isLeapYear y = ((y mod 4 = 0 \<and> y mod 100 \<noteq> 0) \<or> y mod 400 = 0)"

definition daysBeforeMonth :: "int \<Rightarrow> int \<Rightarrow> int" where
  "daysBeforeMonth y m =
     sum_list (take (nat (m - 1)) [31, if isLeapYear y then 29 else 28, 31, 30, 31, 30,
                             31, 31, 30, 31, 30, 31])"

definition parseDigits :: "string \<Rightarrow> int option" where
  "parseDigits k = (if k \<noteq> [] \<and> list_all isDigit k then Some (digitsValue k) else None)"

definition parseIsoDay :: "string \<Rightarrow> int option" where
  "parseIsoDay s =
     (if length s = 10 \<and> s ! 4 = CHR ''-'' \<and> s ! 7 = CHR ''-'' then
        (case (parseDigits (take 4 s), parseDigits (take 2 (drop 5 s)),
               parseDigits (drop 8 s)) of
           (Some y, Some m, Some d) \<Rightarrow>
             if 1 \<le> m \<and> m \<le> 12 \<and> 1 \<le> d
                \<and> d \<le> daysBeforeMonth y (m + 1) - daysBeforeMonth y m
             then Some (DayFromYear y + daysBeforeMonth y m + d - 1)
             else None
         | _ \<Rightarrow> None)
      else None)"

definition parseIsoClock :: "string \<Rightarrow> int option" where
  "parseIsoClock s =
     (if length s = 10 \<and> s ! 0 = CHR ''T'' \<and> s ! 3 = CHR '':'' \<and> s ! 6 = CHR '':''
         \<and> s ! 9 = CHR ''Z'' then
        (case (parseDigits (take 2 (drop 1 s)), parseDigits (take 2 (drop 4 s)),
               parseDigits (take 2 (drop 7 s))) of
           (Some h, Some m, Some sec) \<Rightarrow>
             if h \<le> 23 \<and> m \<le> 59 \<and> sec \<le> 59
             then Some (h * 3600000 + m * 60000 + sec * 1000)
             else None
         | _ \<Rightarrow> None)
      else None)"

definition parseIso :: "string \<Rightarrow> int option" where
  "parseIso s =
     (case parseIsoDay (take 10 s) of
        None \<Rightarrow> None
      | Some d \<Rightarrow>
          if length s = 10 then Some (d * msPerDay)
          else (case parseIsoClock (drop 10 s) of
                  None \<Rightarrow> None
                | Some ms \<Rightarrow> Some (d * msPerDay + ms)))"

definition v8Source :: "string \<Rightarrow> string" where
  "v8Source k =
     ''function '' @ (if k = ''constructor'' then ''Object'' else k)
     @ ''() { [native code] }''"

definition utcPlatform :: platform where
  "utcPlatform = \<lparr>parseDate = parseIso, localTZA = (\<lambda>t. 0), fnSource = v8Source\<rparr>"

subsection \<open>Scenarios\<close>

text \<open>
  The profile and the two repositories of the specification's scenario, a network that
  serves them, networks on which one of the two requests is answered with a status
  that is not ok, and a second user with eleven repositories (two pages).
\<close>

definition sampleRepo ::
  "int \<Rightarrow> string \<Rightarrow> int \<Rightarrow> string option \<Rightarrow> string \<Rightarrow> RepoData" where
  "sampleRepo i n stars lang updated =
     \<lparr>repo_id = i, name = n, stargazers_count = stars, forks_count = 0,
      language = lang, homepage = None, updated_at = updated\<rparr>"

definition adaProfile :: GitHubData where
  "adaProfile =
     \<lparr>login = ''ada'', profile_name = None, avatar_url = [], html_url = [],
      public_repos = 2, followers = 10, following = 1, bio = [], location = [],
      created_at = ''2015-06-01'', repos_url = ''https://api.github.com/users/ada/repos''\<rparr>"

definition repoA :: RepoData where
  "repoA = sampleRepo 1 ''A'' 5 None ''2023-01-01''"

definition repoB :: RepoData where
  "repoB = sampleRepo 2 ''B'' 20 None ''2024-01-01''"

definition graceProfile :: GitHubData where
  "graceProfile =
     adaProfile\<lparr>login := ''grace'', public_repos := 11,
                repos_url := ''https://api.github.com/users/grace/repos''\<rparr>"

definition graceRepos :: "RepoData list" where
  "graceRepos = map (\<lambda>i. sampleRepo (int i) ''r'' 0 None ''2022-03-04T05:06:07Z'') [0..<11]"

definition sampleNetwork :: network where
  "sampleNetwork =
     \<lparr>getUser = (\<lambda>url. if url = ''https://api.github.com/users/ada'' then Ok adaProfile
                       else if url = ''https://api.github.com/users/grace'' then Ok graceProfile
                       else NotOk),
      getRepos = (\<lambda>url. if url = repos_url adaProfile then Ok [repoA, repoB]
                        else if url = repos_url graceProfile then Ok graceRepos
                        else NotOk)\<rparr>"

definition noUserNetwork :: network where
  "noUserNetwork = \<lparr>getUser = (\<lambda>url. NotOk), getRepos = (\<lambda>url. NotOk)\<rparr>"

definition noReposNetwork :: network where
  "noReposNetwork = \<lparr>getUser = (\<lambda>url. Ok adaProfile), getRepos = (\<lambda>url. NotOk)\<rparr>"

definition scenarioStore :: store where
  "scenarioStore = (\<lambda>r. if r = 0 then [repoA, repoB] else [])"

text \<open>The time value of a repository's date on a platform, \<open>0\<close> standing in for \<open>NaN\<close>.\<close>

definition timeOf :: "platform \<Rightarrow> RepoData \<Rightarrow> int" where
  "timeOf P r = (case getTime P (updated_at r) of None \<Rightarrow> 0 | Some t \<Rightarrow> t)"

text \<open>A state as it is after a successful search, with given repositories and page.\<close>

definition loadedState :: "RepoData list \<Rightarrow> int \<Rightarrow> int \<Rightarrow> ViewState" where
  "loadedState rs perPage page =
     initialState\<lparr>repos := rs, reposPerPage := perPage, currentPage := page,
                  loading := False\<rparr>"

subsection \<open>Notions for stating the tallies\<close>

text \<open>
  The languages that the reducer counts, in the order of the repositories: those that
  are neither null nor empty.
\<close>

definition languagesCounted :: "RepoData list \<Rightarrow> string list" where
  "languagesCounted rs =
     concat (map (\<lambda>r. case language r of
                          None \<Rightarrow> []
                        | Some l \<Rightarrow> if l = [] then [] else [l]) rs)"

text \<open>A list without its repetitions, every element at the place where it first stood.\<close>

fun firstOccurrences :: "'a list \<Rightarrow> 'a list" where
  "firstOccurrences [] = []"
| "firstOccurrences (x # xs) = x # filter (\<lambda>y. y \<noteq> x) (firstOccurrences xs)"

text \<open>The keys that a plain object inherits from \<open>Object.prototype\<close>.\<close>

definition objectPrototypeNames :: "string list" where
  "objectPrototypeNames = ''__proto__'' # objectPrototypeFns"

text \<open>An object that holds exactly the positive counts given by \<open>f\<close>, as numbers.\<close>

definition holdsCounts :: "jsobject \<Rightarrow> (string \<Rightarrow> nat) \<Rightarrow> bool" where
  "holdsCounts obj f =
     (\<forall>k. map_of obj k = (if f k = 0 then None else Some (NumV (int (f k)))))"

text \<open>
  Repositories for the tallies: a mixed list (Go, none, TypeScript, Go, empty, \<open>1\<close>),
  one repository whose language is the empty string, and Go followed by \<open>1\<close>.
\<close>

definition mixedRepos :: "RepoData list" where
  "mixedRepos =
     [sampleRepo 1 ''a'' 0 (Some ''Go'') ''2024-01-06'',
      sampleRepo 2 ''b'' 0 None ''2024-01-05'',
      sampleRepo 3 ''c'' 0 (Some ''TypeScript'') ''2024-01-04'',
      sampleRepo 4 ''d'' 0 (Some ''Go'') ''2024-01-03'',
      sampleRepo 5 ''e'' 0 (Some []) ''2024-01-02'',
      sampleRepo 6 ''f'' 0 (Some ''1'') ''2024-01-01'']"

definition emptyLanguageRepos :: "RepoData list" where
  "emptyLanguageRepos = [sampleRepo 1 ''a'' 0 (Some []) ''2024-01-01'']"

definition numericLanguageRepos :: "RepoData list" where
  "numericLanguageRepos =
     [sampleRepo 1 ''a'' 0 (Some ''Go'') ''2024-01-02'',
      sampleRepo 2 ''b'' 0 (Some ''1'') ''2024-01-01'']"

text \<open>Draws of the random number for the fill colours, and having a language at all.\<close>

definition fixedDraws :: "nat \<Rightarrow> nat" where
  "fixedDraws i = (7 * i) mod 50"

definition hasLanguage :: "RepoData \<Rightarrow> bool" where
  "hasLanguage r = (language r \<noteq> None)"

text \<open>Two repositories whose languages are names inherited from \<open>Object.prototype\<close>.\<close>

definition inheritedNameRepos :: "RepoData list" where
  "inheritedNameRepos =
     [sampleRepo 1 ''a'' 0 (Some ''constructor'') ''2024-01-02'',
      sampleRepo 2 ''b'' 0 (Some ''__proto__'') ''2024-01-01'']"

text \<open>
  A browser whose local time is eight hours behind UTC, and a profile created at the
  first instant of 2015 (UTC).
\<close>

definition pacificPlatform :: platform where
  "pacificPlatform = utcPlatform\<lparr>localTZA := (\<lambda>t. - 28800000)\<rparr>"

definition newYearProfile :: GitHubData where
  "newYearProfile = adaProfile\<lparr>created_at := ''2015-01-01''\<rparr>"

section \<open>The year of a time value\<close>

text \<open>
  \<open>YearFromTime t\<close> is the year the standard asks for: a year starts at or before
  \<open>t\<close> exactly when it is at most \<open>YearFromTime t\<close>.
\<close>

lemma floor_quotient:
  assumes "0 < (b::int)"
  shows "b * (a div b) \<le> a" and "a < b * (a div b) + b"
proof -
  have "b * (a div b) + a mod b = a" by simp
  moreover have "0 \<le> a mod b" and "a mod b < b" using assms by simp_all
  ultimately show "b * (a div b) \<le> a" and "a < b * (a div b) + b" by linarith+
qed

lemma DayFromYear_estimate:
  "146097 * y - 287811596 \<le> 400 * DayFromYear y"
  "400 * DayFromYear y \<le> 146097 * y - 287810501"
proof -
  define q4 q100 q400 where "q4 = (y - 1969) div 4" and "q100 = (y - 1901) div 100"
    and "q400 = (y - 1601) div 400"
  have "4 * q4 \<le> y - 1969" "y - 1969 < 4 * q4 + 4"
    "100 * q100 \<le> y - 1901" "y - 1901 < 100 * q100 + 100"
    "400 * q400 \<le> y - 1601" "y - 1601 < 400 * q400 + 400"
    unfolding q4_def q100_def q400_def by (simp_all add: floor_quotient)
  moreover have "DayFromYear y = 365 * y - 719050 + q4 - q100 + q400"
    by (simp add: DayFromYear_def q4_def q100_def q400_def)
  ultimately show "146097 * y - 287811596 \<le> 400 * DayFromYear y"
    and "400 * DayFromYear y \<le> 146097 * y - 287810501"
    by linarith+
qed

lemma DayFromYear_step: "DayFromYear y < DayFromYear (y + 1)"
proof -
  have "(y - 1969) div 4 \<le> (y + 1 - 1969) div 4" by (rule zdiv_mono1) simp_all
  moreover have "(y + 1 - 1901) div 100 \<le> (y - 1901) div 100 + 1"
    using zdiv_mono1 [of "y + 1 - 1901" "y - 1901 + 100" 100] by simp
  moreover have "(y - 1601) div 400 \<le> (y + 1 - 1601) div 400" by (rule zdiv_mono1) simp_all
  ultimately show ?thesis by (simp add: DayFromYear_def)
qed

lemma DayFromYear_mono: "y \<le> z \<Longrightarrow> DayFromYear y \<le> DayFromYear z"
proof (induction "nat (z - y)" arbitrary: z)
  case 0
  then show ?case by simp
next
  case (Suc n)
  then have "n = nat ((z - 1) - y)" and "y \<le> z - 1" by linarith+
  then have "DayFromYear y \<le> DayFromYear (z - 1)" using Suc.hyps(1) by blast
  then show ?case using DayFromYear_step [of "z - 1"] by simp
qed

lemma YearFromDay_bounds:
  "DayFromYear (YearFromDay d) \<le> d" "d < DayFromYear (YearFromDay d + 1)"
proof -
  define q where "q = (400 * d) div 146097"
  have lo: "146097 * q \<le> 400 * d" and hi: "400 * d < 146097 * q + 146097"
    using floor_quotient [of 146097 "400 * d"] by (simp_all add: q_def)
  have "400 * DayFromYear (1969 + q) \<le> 146097 * q - 145508"
    using DayFromYear_estimate(2) [of "1969 + q"] by (simp add: algebra_simps)
  then have below: "DayFromYear (1969 + q) \<le> d" using lo by linarith
  have "146097 * q + 291688 \<le> 400 * DayFromYear (1972 + q)"
    using DayFromYear_estimate(1) [of "1972 + q"] by (simp add: algebra_simps)
  then have above: "d < DayFromYear (1972 + q)" using hi by linarith
  have unfold: "YearFromDay d = (if DayFromYear (1971 + q) \<le> d then 1971 + q
         else if DayFromYear (1970 + q) \<le> d then 1970 + q else 1969 + q)"
    by (simp add: YearFromDay_def Let_def q_def add.commute)
  show "DayFromYear (YearFromDay d) \<le> d"
    using below unfolding unfold by simp
  show "d < DayFromYear (YearFromDay d + 1)"
    using above unfolding unfold by (simp add: not_le)
qed

lemma YearFromTime_correct:
  "(DayFromYear y * msPerDay \<le> t) = (y \<le> YearFromTime t)"
proof -
  define d where "d = t div 86400000"
  have "86400000 * d \<le> t" and "t < 86400000 * d + 86400000"
    unfolding d_def by (simp_all add: floor_quotient)
  then have day: "(DayFromYear y * msPerDay \<le> t) = (DayFromYear y \<le> d)"
    unfolding msPerDay_def by linarith
  have year: "(DayFromYear y \<le> d) = (y \<le> YearFromDay d)"
  proof
    assume "DayFromYear y \<le> d"
    then have "DayFromYear y < DayFromYear (YearFromDay d + 1)"
      using YearFromDay_bounds(2) [of d] by simp
    then have "\<not> YearFromDay d + 1 \<le> y"
      using DayFromYear_mono [of "YearFromDay d + 1" y] by linarith
    then show "y \<le> YearFromDay d" by simp
  next
    assume "y \<le> YearFromDay d"
    then have "DayFromYear y \<le> DayFromYear (YearFromDay d)" by (rule DayFromYear_mono)
    then show "DayFromYear y \<le> d" using YearFromDay_bounds(1) [of d] by simp
  qed
  show ?thesis using day year by (simp add: YearFromTime_def msPerDay_def d_def)
qed

section \<open>The repository sorter\<close>

lemma mset_insertBy: "mset (insertBy c x ys) = add_mset x (mset ys)"
  by (induction ys) simp_all

lemma mset_sortBy: "mset (sortBy cmp xs) = mset xs"
  unfolding sortBy_def by (induction xs) (simp_all add: mset_insertBy)

lemma set_insertBy: "set (insertBy c x ys) = insert x (set ys)"
  using mset_insertBy [of c x ys] by (metis set_mset_add_mset_insert set_mset_mset)

lemma sorted_insertBy:
  assumes "sorted_wrt (\<lambda>a b. t b \<le> t a) ys"
    and "\<And>y. y \<in> set ys \<Longrightarrow> c x y = t y - t x"
  shows "sorted_wrt (\<lambda>a b. t b \<le> (t a :: int)) (insertBy c x ys)"
  using assms
proof (induction ys)
  case Nil
  then show ?case by simp
next
  case (Cons y ys)
  show ?case
  proof (cases "c x y \<le> 0")
    case True
    then have "t y \<le> t x" using Cons.prems(2) [of y] by simp
    moreover have "\<forall>z\<in>set ys. t z \<le> t y" using Cons.prems(1) by simp
    ultimately show ?thesis using True Cons.prems(1) by fastforce
  next
    case False
    then have "t x \<le> t y" using Cons.prems(2) [of y] by simp
    moreover have "sorted_wrt (\<lambda>a b. t b \<le> t a) (insertBy c x ys)"
      using Cons by simp
    ultimately show ?thesis using False Cons.prems(1) by (auto simp: set_insertBy)
  qed
qed

lemma filter_insertBy:
  assumes "\<And>y. y \<in> set ys \<Longrightarrow> c x y = t y - t x"
  shows "filter (\<lambda>r. t r = (k::int)) (insertBy c x ys) = filter (\<lambda>r. t r = k) (x # ys)"
  using assms
proof (induction ys)
  case Nil
  then show ?case by simp
next
  case (Cons y ys)
  show ?case
  proof (cases "c x y \<le> 0")
    case True
    then show ?thesis by simp
  next
    case False
    then have "t x < t y" using Cons.prems [of y] by simp
    moreover have "filter (\<lambda>r. t r = k) (insertBy c x ys) = filter (\<lambda>r. t r = k) (x # ys)"
      using Cons by simp
    ultimately show ?thesis using False by auto
  qed
qed

lemma insertBy_front:
  assumes "\<And>y. y \<in> set ys \<Longrightarrow> c x y = t y - t x"
    and "\<forall>y\<in>set ys. t y \<le> (t x :: int)"
  shows "insertBy c x ys = x # ys"
  using assms by (cases ys) simp_all

lemma sortCompare_valid:
  assumes "getTime P (updated_at x) = Some (t x)" and "getTime P (updated_at y) = Some (t y)"
  shows "sortCompare (byUpdatedDesc P) x y = t y - t x"
  using assms by (simp add: sortCompare_def byUpdatedDesc_def)

lemma sortRepos_Cons: "sortRepos P (x # xs) = insertBy (sortCompare (byUpdatedDesc P)) x (sortRepos P xs)"
  by (simp add: sortRepos_def sortBy_def)

lemma set_sortRepos: "set (sortRepos P xs) = set xs"
  using mset_sortBy [of "byUpdatedDesc P" xs] unfolding sortRepos_def by (metis set_mset_mset)

lemma sortRepos_sorted:
  assumes "\<forall>r\<in>set xs. getTime P (updated_at r) = Some (t r)"
  shows "sorted_wrt (\<lambda>a b. t b \<le> t a) (sortRepos P xs)"
  using assms
proof (induction xs)
  case Nil
  then show ?case by (simp add: sortRepos_def sortBy_def)
next
  case (Cons x xs)
  have "\<And>y. y \<in> set (sortRepos P xs) \<Longrightarrow> sortCompare (byUpdatedDesc P) x y = t y - t x"
    using Cons.prems by (simp add: set_sortRepos sortCompare_valid)
  then show ?case using Cons by (simp add: sortRepos_Cons sorted_insertBy)
qed

lemma sortRepos_stable:
  assumes "\<forall>r\<in>set xs. getTime P (updated_at r) = Some (t r)"
  shows "filter (\<lambda>r. t r = k) (sortRepos P xs) = filter (\<lambda>r. t r = k) xs"
  using assms
proof (induction xs)
  case Nil
  then show ?case by (simp add: sortRepos_def sortBy_def)
next
  case (Cons x xs)
  have "\<And>y. y \<in> set (sortRepos P xs) \<Longrightarrow> sortCompare (byUpdatedDesc P) x y = t y - t x"
    using Cons.prems by (simp add: set_sortRepos sortCompare_valid)
  then have "filter (\<lambda>r. t r = k) (sortRepos P (x # xs)) = filter (\<lambda>r. t r = k) (x # sortRepos P xs)"
    unfolding sortRepos_Cons by (rule filter_insertBy)
  then show ?case using Cons by simp
qed

lemma sortRepos_sorted_id:
  assumes "\<forall>r\<in>set xs. getTime P (updated_at r) = Some (t r)"
    and "sorted_wrt (\<lambda>a b. t b \<le> t a) xs"
  shows "sortRepos P xs = xs"
  using assms
proof (induction xs)
  case Nil
  then show ?case by (simp add: sortRepos_def sortBy_def)
next
  case (Cons x xs)
  have c: "\<And>y. y \<in> set xs \<Longrightarrow> sortCompare (byUpdatedDesc P) x y = t y - t x"
    using Cons.prems by (simp add: sortCompare_valid)
  have "sortRepos P xs = xs" using Cons by simp
  then have "sortRepos P (x # xs) = insertBy (sortCompare (byUpdatedDesc P)) x xs"
    by (simp add: sortRepos_Cons)
  also have "\<dots> = x # xs"
    using c Cons.prems(2) by (intro insertBy_front [where t = t]) simp_all
  finally show ?case .
qed

lemma Array_sort_content: "fst (Array_sort P h a) (snd (Array_sort P h a)) = sortRepos P (h a)"
  by (simp add: Array_sort_def)

lemma scenario_times:
  "getTime utcPlatform (updated_at repoA) = Some 1672531200000"
  "getTime utcPlatform (updated_at repoB) = Some 1704067200000"
  by code_simp+

text \<open>
  Claim C3, as the code has it. For every array of repositories whose dates all parse,
  \<open>sort\<close> returns the array it was called on and leaves every other array alone; the
  array then holds a permutation of its former content, of the same length, ordered by
  \<open>updated_at\<close> from the most recent to the oldest, with repositories of equal date in
  their former relative order. The array that was passed in is the one rearranged: it
  keeps its former content exactly when that was already in this order.
\<close>

theorem Array_sort_in_place:
  assumes "\<forall>r\<in>set (h a). getTime P (updated_at r) = Some (t r)"
  shows "snd (Array_sort P h a) = a
       \<and> (\<forall>b. b \<noteq> a \<longrightarrow> fst (Array_sort P h a) b = h b)
       \<and> length (fst (Array_sort P h a) a) = length (h a)
       \<and> mset (fst (Array_sort P h a) a) = mset (h a)
       \<and> sorted_wrt (\<lambda>x y. t y \<le> t x) (fst (Array_sort P h a) a)
       \<and> (\<forall>k. filter (\<lambda>r. t r = k) (fst (Array_sort P h a) a) = filter (\<lambda>r. t r = k) (h a))
       \<and> ((fst (Array_sort P h a) a = h a) = sorted_wrt (\<lambda>x y. t y \<le> t x) (h a))"
proof -
  have content: "fst (Array_sort P h a) a = sortRepos P (h a)"
    by (simp add: Array_sort_def)
  have perm: "mset (sortRepos P (h a)) = mset (h a)"
    by (simp add: sortRepos_def mset_sortBy)
  have len: "length (sortRepos P (h a)) = length (h a)"
    using perm by (metis size_mset)
  have ordered: "sorted_wrt (\<lambda>x y. t y \<le> t x) (sortRepos P (h a))"
    using assms by (rule sortRepos_sorted)
  have stable: "\<forall>k. filter (\<lambda>r. t r = k) (sortRepos P (h a)) = filter (\<lambda>r. t r = k) (h a)"
    using assms by (simp add: sortRepos_stable)
  have same: "(sortRepos P (h a) = h a) = sorted_wrt (\<lambda>x y. t y \<le> t x) (h a)"
  proof
    assume "sortRepos P (h a) = h a"
    then show "sorted_wrt (\<lambda>x y. t y \<le> t x) (h a)" using ordered by simp
  next
    assume "sorted_wrt (\<lambda>x y. t y \<le> t x) (h a)"
    then show "sortRepos P (h a) = h a" by (rule sortRepos_sorted_id [OF assms])
  qed
  have "snd (Array_sort P h a) = a" by (simp add: Array_sort_def)
  moreover have "\<forall>b. b \<noteq> a \<longrightarrow> fst (Array_sort P h a) b = h b" by (simp add: Array_sort_def)
  ultimately show ?thesis
    unfolding content using perm len ordered stable same by blast
qed

text \<open>
  The scenario's array \<open>[A, B]\<close> (A updated in 2023, B in 2024) satisfies the
  hypothesis and comes out as \<open>[B, A]\<close>.
\<close>

theorem Array_sort_in_place_witness:
  "getTime utcPlatform (updated_at repoA) = Some (timeOf utcPlatform repoA)
   \<and> getTime utcPlatform (updated_at repoB) = Some (timeOf utcPlatform repoB)
   \<and> scenarioStore 0 = [repoA, repoB]
   \<and> snd (Array_sort utcPlatform scenarioStore 0) = 0
   \<and> fst (Array_sort utcPlatform scenarioStore 0) 0 = [repoB, repoA]
   \<and> mset (fst (Array_sort utcPlatform scenarioStore 0) 0) = mset (scenarioStore 0)
   \<and> timeOf utcPlatform repoA < timeOf utcPlatform repoB"
proof -
  have valid: "\<forall>r\<in>set (scenarioStore 0). getTime utcPlatform (updated_at r) = Some (timeOf utcPlatform r)"
    by (simp add: scenarioStore_def timeOf_def scenario_times)
  have sorted: "fst (Array_sort utcPlatform scenarioStore 0) 0 = [repoB, repoA]"
    by (simp add: Array_sort_def scenarioStore_def sortRepos_def sortBy_def sortCompare_def byUpdatedDesc_def scenario_times)
  have "timeOf utcPlatform repoA < timeOf utcPlatform repoB"
    by (simp add: timeOf_def scenario_times)
  then show ?thesis
    using Array_sort_in_place [where h = scenarioStore and a = 0 and P = utcPlatform
        and t = "timeOf utcPlatform", OF valid] valid sorted
    by (simp add: scenarioStore_def)
qed

text \<open>
  Claim C3 as stated says that the input sequence is not mutated. After the call the
  scenario's array no longer holds what it held before.
\<close>

theorem Array_sort_mutates_input:
  "fst (Array_sort utcPlatform scenarioStore 0) 0 \<noteq> scenarioStore 0"
proof -
  have "fst (Array_sort utcPlatform scenarioStore 0) 0 = [repoB, repoA]"
    by (simp add: Array_sort_def scenarioStore_def sortRepos_def sortBy_def sortCompare_def byUpdatedDesc_def scenario_times)
  moreover have "repoB \<noteq> repoA" by (simp add: repoA_def repoB_def sampleRepo_def)
  ultimately show ?thesis by (simp add: scenarioStore_def)
qed

section \<open>The paginator\<close>

lemma slice_window:
  assumes "0 \<le> lo" and "0 < w"
  shows "slice xs lo (lo + w) = take (nat w) (drop (nat lo) xs)"
proof (cases "lo < int (length xs)")
  case True
  then have "nat (min (lo + w) (int (length xs)) - lo) = min (nat w) (length xs - nat lo)"
    using assms by linarith
  then show ?thesis
    using assms True by (simp add: slice_def Let_def min_def)
next
  case False
  then show ?thesis using assms by (simp add: slice_def Let_def min_def)
qed

lemma currentRepos_window:
  assumes "0 < reposPerPage s" and "1 \<le> currentPage s"
  shows "currentRepos s =
         take (nat (reposPerPage s)) (drop (nat ((currentPage s - 1) * reposPerPage s)) (repos s))"
proof -
  have lo: "indexOfFirstRepo s = (currentPage s - 1) * reposPerPage s"
    by (simp add: indexOfFirstRepo_def indexOfLastRepo_def algebra_simps)
  have hi: "indexOfLastRepo s = (currentPage s - 1) * reposPerPage s + reposPerPage s"
    by (simp add: indexOfLastRepo_def algebra_simps)
  have "0 \<le> (currentPage s - 1) * reposPerPage s" using assms by simp
  then show ?thesis
    unfolding currentRepos_def lo hi using assms(1) by (rule slice_window)
qed

lemma concat_windows:
  "concat (map (\<lambda>i. take m (drop (i * m) xs)) [0..<n]) = take (n * m) xs"
proof (induction n)
  case 0
  then show ?case by simp
next
  case (Suc n)
  have "take (n * m) xs @ take m (drop (n * m) xs) = take (n * m + m) xs"
    by (simp add: take_add)
  then show ?case using Suc by (simp add: add.commute)
qed

lemma ceiling_quotient:
  assumes "0 < (p::int)" and "0 \<le> len"
  shows "len \<le> (- ((- len) div p)) * p" and "(- ((- len) div p)) * p < len + p"
    and "0 \<le> - ((- len) div p)"
proof -
  have eq: "(- len) div p * p + (- len) mod p = - len" by simp
  have "0 \<le> (- len) mod p" and "(- len) mod p < p" using assms by simp_all
  then show "len \<le> (- ((- len) div p)) * p" and "(- ((- len) div p)) * p < len + p"
    using eq by linarith+
  have "(- len) div p \<le> 0" using assms by (simp add: div_nonpos_pos_le0)
  then show "0 \<le> - ((- len) div p)" by simp
qed

text \<open>
  Claim C5. For a positive page size and a page number from \<open>1\<close> to the number of
  pages \<open>n\<close> (the ceiling of the number of repositories over the page size), the
  page shown is the window of \<open>reposPerPage\<close> repositories that starts at index
  \<open>(currentPage - 1) * reposPerPage\<close>, cut off at the end of the list; it is never
  longer than the page size; the buttons offer the pages \<open>1\<close> to \<open>n\<close>; and these
  pages, one after the other, are the whole list.
\<close>

theorem currentRepos_is_page:
  assumes "0 < reposPerPage s" and "pageCount s = Some n"
    and "1 \<le> currentPage s" and "currentPage s \<le> int n"
  shows "currentRepos s =
           take (nat (reposPerPage s))
             (drop (nat ((currentPage s - 1) * reposPerPage s)) (repos s))
       \<and> length (currentRepos s) \<le> nat (reposPerPage s)
       \<and> int (length (repos s)) \<le> int n * reposPerPage s
       \<and> int n * reposPerPage s < int (length (repos s)) + reposPerPage s
       \<and> pageButtons s = Some (map (\<lambda>index. int index + 1) [0..<n])
       \<and> concat (map (\<lambda>p. currentRepos (paginate p s)) (map (\<lambda>index. int index + 1) [0..<n]))
           = repos s"
proof -
  let ?w = "reposPerPage s" and ?len = "int (length (repos s))"
  have page: "currentRepos s = take (nat ?w) (drop (nat ((currentPage s - 1) * ?w)) (repos s))"
    using assms(1,3) by (rule currentRepos_window)
  have n: "int n = - ((- ?len) div ?w)"
    using assms(1,2) ceiling_quotient(3) [of ?w ?len] by (simp add: pageCount_def)
  have upper: "?len \<le> int n * ?w" and lower: "int n * ?w < ?len + ?w"
    using ceiling_quotient(1,2) [of ?w ?len] assms(1) unfolding n by simp_all
  have buttons: "pageButtons s = Some (map (\<lambda>index. int index + 1) [0..<n])"
    using assms(2) by (simp add: pageButtons_def)
  have each: "currentRepos (paginate (int i + 1) s) = take (nat ?w) (drop (i * nat ?w) (repos s))" for i
  proof -
    have "currentRepos (paginate (int i + 1) s) =
          take (nat ?w) (drop (nat ((int i + 1 - 1) * ?w)) (repos s))"
      using currentRepos_window [of "paginate (int i + 1) s"] assms(1)
      by (simp add: paginate_def)
    moreover have "nat ((int i + 1 - 1) * ?w) = i * nat ?w"
      using assms(1) by (simp add: nat_mult_distrib)
    ultimately show ?thesis by simp
  qed
  have "concat (map (\<lambda>p. currentRepos (paginate p s)) (map (\<lambda>index. int index + 1) [0..<n]))
        = concat (map (\<lambda>i. take (nat ?w) (drop (i * nat ?w) (repos s))) [0..<n])"
    by (simp add: each comp_def)
  also have "\<dots> = take (n * nat ?w) (repos s)" by (rule concat_windows)
  also have "\<dots> = repos s"
  proof -
    have "int (n * nat ?w) = int n * ?w" using assms(1) by simp
    then have "length (repos s) \<le> n * nat ?w" using upper by linarith
    then show ?thesis by simp
  qed
  finally have whole: "concat (map (\<lambda>p. currentRepos (paginate p s))
      (map (\<lambda>index. int index + 1) [0..<n])) = repos s" .
  have "length (currentRepos s) \<le> nat ?w" unfolding page by simp
  then show ?thesis using page upper lower buttons whole by blast
qed

text \<open>Eleven repositories, ten to a page, page two: the last repository alone.\<close>

theorem currentRepos_is_page_witness:
  "0 < reposPerPage (loadedState graceRepos 10 2)
   \<and> pageCount (loadedState graceRepos 10 2) = Some 2
   \<and> 1 \<le> currentPage (loadedState graceRepos 10 2)
   \<and> currentPage (loadedState graceRepos 10 2) \<le> int 2
   \<and> length graceRepos = 11
   \<and> currentRepos (loadedState graceRepos 10 2) = drop 10 graceRepos
   \<and> length (currentRepos (loadedState graceRepos 10 2)) = 1
   \<and> currentRepos (paginate 1 (loadedState graceRepos 10 2))
       @ currentRepos (paginate 2 (loadedState graceRepos 10 2)) = graceRepos"
proof -
  let ?s = "loadedState graceRepos 10 2"
  have len: "length graceRepos = 11" by (simp add: graceRepos_def)
  have h1: "0 < reposPerPage ?s" by (simp add: loadedState_def)
  have h2: "pageCount ?s = Some 2" by (simp add: loadedState_def pageCount_def len initialState_def)
  have h3: "1 \<le> currentPage ?s" by (simp add: loadedState_def)
  have h4: "currentPage ?s \<le> int 2" by (simp add: loadedState_def)
  note facts = currentRepos_is_page [OF h1 h2 h3 h4]
  have rs: "repos ?s = graceRepos" by (simp add: loadedState_def)
  have "currentRepos ?s = drop 10 graceRepos"
    using facts len by (simp add: loadedState_def)
  moreover have "currentRepos (paginate 1 ?s) @ currentRepos (paginate 2 ?s) = graceRepos"
    using facts rs by (simp add: numeral_2_eq_2)
  ultimately show ?thesis using h1 h2 h3 h4 len by simp
qed

section \<open>The fetch orchestrator\<close>



lemma currentPage_fetch: "currentPage (fst (fetchGitHubData P N s)) = currentPage s"
  by (simp add: fetchGitHubData_def tryBlock_def Let_def Array_sort_def split: reply.splits)


text \<open>
  Claim C7. For a non-empty username, when the profile request or, after a profile has
  arrived, the repository request is answered with a status that is not ok, the state
  after \<open>fetchGitHubData\<close> carries the one message of that failure (\<open>User not found\<close>,
  \<open>Repositories not found\<close>), and profile, repositories and summary are empty: the
  profile that had arrived is not stored.
\<close>

theorem fetch_failure_clears:
  assumes "username s \<noteq> []"
    and "getUser N (''https://api.github.com/users/'' @ username s) = NotOk
         \<or> (\<exists>userData. getUser N (''https://api.github.com/users/'' @ username s) = Ok userData
                \<and> getRepos N (repos_url userData) = NotOk)"
  shows "error (fst (fetchGitHubData P N s)) =
           (if getUser N (''https://api.github.com/users/'' @ username s) = NotOk
            then ''User not found'' else ''Repositories not found'')
       \<and> data (fst (fetchGitHubData P N s)) = None
       \<and> repos (fst (fetchGitHubData P N s)) = []
       \<and> aiSummary (fst (fetchGitHubData P N s)) = []
       \<and> loading (fst (fetchGitHubData P N s)) = False"
  using assms(2)
proof
  assume "getUser N (''https://api.github.com/users/'' @ username s) = NotOk"
  then show ?thesis using assms(1) by (simp add: fetchGitHubData_def tryBlock_def Let_def)
next
  assume "\<exists>userData. getUser N (''https://api.github.com/users/'' @ username s) = Ok userData
                \<and> getRepos N (repos_url userData) = NotOk"
  then obtain userData where "getUser N (''https://api.github.com/users/'' @ username s) = Ok userData"
    and "getRepos N (repos_url userData) = NotOk" by blast
  then show ?thesis using assms(1) by (simp add: fetchGitHubData_def tryBlock_def Let_def)
qed

text \<open>
  A state that still shows an earlier user, searched on a network that delivers the
  profile and refuses the repositories, and on one that refuses the profile.
\<close>

theorem fetch_failure_clears_witness:
  "username (initialState\<lparr>username := ''ada'', data := Some graceProfile, repos := graceRepos,
                           aiSummary := ''old summary'', error := ''old error''\<rparr>) \<noteq> []
   \<and> getUser noReposNetwork ''https://api.github.com/users/ada'' = Ok adaProfile
   \<and> getRepos noReposNetwork (repos_url adaProfile) = NotOk
   \<and> error (fst (fetchGitHubData utcPlatform noReposNetwork
        (initialState\<lparr>username := ''ada'', data := Some graceProfile, repos := graceRepos,
                       aiSummary := ''old summary'', error := ''old error''\<rparr>))) = ''Repositories not found''
   \<and> data (fst (fetchGitHubData utcPlatform noReposNetwork
        (initialState\<lparr>username := ''ada'', data := Some graceProfile, repos := graceRepos,
                       aiSummary := ''old summary'', error := ''old error''\<rparr>))) = None
   \<and> getUser noUserNetwork ''https://api.github.com/users/ada'' = NotOk
   \<and> error (fst (fetchGitHubData utcPlatform noUserNetwork
        (initialState\<lparr>username := ''ada'', data := Some graceProfile, repos := graceRepos,
                       aiSummary := ''old summary'', error := ''old error''\<rparr>))) = ''User not found''
   \<and> repos (fst (fetchGitHubData utcPlatform noUserNetwork
        (initialState\<lparr>username := ''ada'', data := Some graceProfile, repos := graceRepos,
                       aiSummary := ''old summary'', error := ''old error''\<rparr>))) = []"
proof -
  let ?s = "initialState\<lparr>username := ''ada'', data := Some graceProfile, repos := graceRepos,
                           aiSummary := ''old summary'', error := ''old error''\<rparr>"
  have named: "username ?s \<noteq> []" by simp
  have u: "getUser noReposNetwork (''https://api.github.com/users/'' @ username ?s) = Ok adaProfile"
    by (simp add: noReposNetwork_def)
  have r: "getRepos noReposNetwork (repos_url adaProfile) = NotOk"
    by (simp add: noReposNetwork_def)
  have second: "getUser noReposNetwork (''https://api.github.com/users/'' @ username ?s) = NotOk
         \<or> (\<exists>userData. getUser noReposNetwork (''https://api.github.com/users/'' @ username ?s) = Ok userData
                \<and> getRepos noReposNetwork (repos_url userData) = NotOk)"
    using u r by blast
  have n: "getUser noUserNetwork (''https://api.github.com/users/'' @ username ?s) = NotOk"
    by (simp add: noUserNetwork_def)
  then have first: "getUser noUserNetwork (''https://api.github.com/users/'' @ username ?s) = NotOk
         \<or> (\<exists>userData. getUser noUserNetwork (''https://api.github.com/users/'' @ username ?s) = Ok userData
                \<and> getRepos noUserNetwork (repos_url userData) = NotOk)"
    by blast
  show ?thesis
    using fetch_failure_clears [OF named second, of utcPlatform]
      fetch_failure_clears [OF named first, of utcPlatform] u r n
    by simp
qed

text \<open>
  Claim C8. With the empty username \<open>fetchGitHubData\<close> requests nothing and returns
  the state it was given, every cell as it was.
\<close>

theorem fetch_empty_username:
  assumes "username s = []"
  shows "fetchGitHubData P N s = (s, [])"
  using assms by (simp add: fetchGitHubData_def)

text \<open>A state with repositories loaded, on page two, and an empty input field.\<close>

theorem fetch_empty_username_witness:
  "username (loadedState graceRepos 10 2) = []
   \<and> fetchGitHubData utcPlatform sampleNetwork (loadedState graceRepos 10 2)
       = (loadedState graceRepos 10 2, [])"
proof -
  have h: "username (loadedState graceRepos 10 2) = []"
    by (simp add: loadedState_def initialState_def)
  show ?thesis using fetch_empty_username [OF h] h by simp
qed



text \<open>
  Claim C2 fails on the code: \<open>fetchGitHubData\<close> clears four cells and leaves
  \<open>currentPage\<close> as it was. After a search for a user with eleven repositories, page
  two, and a search for a user with two repositories, the page is still two, beyond the
  single page there is, and the table shows no repository.
\<close>

theorem fetch_keeps_currentPage:
  "currentPage (fst (fetchGitHubData P N s)) = currentPage s
   \<and> currentPage (run utcPlatform initialState
        [SetUsername ''grace'', Search sampleNetwork, Paginate 2,
         SetUsername ''ada'', Search sampleNetwork]) = 2
   \<and> repos (run utcPlatform initialState
        [SetUsername ''grace'', Search sampleNetwork, Paginate 2,
         SetUsername ''ada'', Search sampleNetwork]) = [repoB, repoA]
   \<and> pageCount (run utcPlatform initialState
        [SetUsername ''grace'', Search sampleNetwork, Paginate 2,
         SetUsername ''ada'', Search sampleNetwork]) = Some 1
   \<and> currentRepos (run utcPlatform initialState
        [SetUsername ''grace'', Search sampleNetwork, Paginate 2,
         SetUsername ''ada'', Search sampleNetwork]) = []"
proof -
  have "run utcPlatform initialState
      [SetUsername ''grace'', Search sampleNetwork, Paginate 2,
       SetUsername ''ada'', Search sampleNetwork] =
    \<lparr>username = ''ada'', data = Some adaProfile, repos = [repoB, repoA], error = [],
     loading = False, currentPage = 2, reposPerPage = 10,
     aiSummary = generateAiSummary utcPlatform adaProfile [repoB, repoA]\<rparr>"
    by code_simp
  then show ?thesis
    by (simp add: currentPage_fetch pageCount_def currentRepos_def slice_def
        indexOfFirstRepo_def indexOfLastRepo_def)
qed

section \<open>The summary generator\<close>

lemma sortRepos_head:
  assumes "\<forall>r\<in>set xs. getTime P (updated_at r) = Some (t r)" and "xs \<noteq> []"
  shows "\<exists>r rest. sortRepos P xs = r # rest \<and> r \<in> set xs \<and> (\<forall>x\<in>set xs. t x \<le> t r)"
proof -
  have "set (sortRepos P xs) = set xs" by (rule set_sortRepos)
  moreover from this obtain r rest where split: "sortRepos P xs = r # rest"
    using assms(2) by (cases "sortRepos P xs") auto
  moreover have "sorted_wrt (\<lambda>a b. t b \<le> t a) (r # rest)"
    using sortRepos_sorted [OF assms(1)] split by simp
  ultimately show ?thesis by fastforce
qed

text \<open>
  Claim C9, as the code has it. Let the dates of a non-empty list of repositories all
  parse. Sorted by \<open>sortRepos\<close> (which leaves a list that is already in order as it
  is), the list has a first repository; it is one of those given, and none of them was
  updated later. The summary of the sorted list is a text of three sentences: the first
  names the profile (the login when the name is absent or empty) and the year of
  \<open>created_at\<close> in the browser's local time, as \<open>getFullYear\<close> gives it (\<open>NaN\<close>
  when the date does not parse); the second gives the three counts; the third gives the
  name and the star count of that first repository.
\<close>

theorem summary_highlights_latest:
  assumes "\<forall>x\<in>set reposData. getTime P (updated_at x) = Some (t x)" and "reposData \<noteq> []"
  shows "(\<exists>latest others.
           sortRepos P reposData = latest # others
           \<and> latest \<in> set reposData
           \<and> (\<forall>x\<in>set reposData. t x \<le> t latest)
           \<and> generateAiSummary P userData (sortRepos P reposData) =
             ''This GitHub profile belongs to ''
             @ (case profile_name userData of
                  None \<Rightarrow> login userData
                | Some n \<Rightarrow> if n = [] then login userData else n)
             @ '', who joined GitHub in ''
             @ (case parseDate P (created_at userData) of
                  None \<Rightarrow> ''NaN''
                | Some ms \<Rightarrow> showInt (YearFromTime (ms + localTZA P ms)))
             @ ''. They have '' @ showInt (public_repos userData)
             @ '' public repositories, '' @ showInt (followers userData)
             @ '' followers, and are following '' @ showInt (following userData)
             @ '' users. Their most popular repository is '' @ [CHR 0x22] @ name latest
             @ [CHR 0x22] @ '' with '' @ showInt (stargazers_count latest) @ '' stars.'')
       \<and> (sorted_wrt (\<lambda>a b. t b \<le> t a) reposData \<longrightarrow> sortRepos P reposData = reposData)"
proof (rule conjI)
  obtain latest others where head: "sortRepos P reposData = latest # others"
      "latest \<in> set reposData" "\<forall>x\<in>set reposData. t x \<le> t latest"
    using sortRepos_head [OF assms] by blast
  have "generateAiSummary P userData (latest # others) =
             ''This GitHub profile belongs to ''
             @ (case profile_name userData of
                  None \<Rightarrow> login userData
                | Some n \<Rightarrow> if n = [] then login userData else n)
             @ '', who joined GitHub in ''
             @ (case parseDate P (created_at userData) of
                  None \<Rightarrow> ''NaN''
                | Some ms \<Rightarrow> showInt (YearFromTime (ms + localTZA P ms)))
             @ ''. They have '' @ showInt (public_repos userData)
             @ '' public repositories, '' @ showInt (followers userData)
             @ '' followers, and are following '' @ showInt (following userData)
             @ '' users. Their most popular repository is '' @ [CHR 0x22] @ name latest
             @ [CHR 0x22] @ '' with '' @ showInt (stargazers_count latest) @ '' stars.''"
    by (simp add: generateAiSummary_def nameOrLogin_def showNumber_def getFullYear_def
        split: option.splits)
  then show "\<exists>latest others.
           sortRepos P reposData = latest # others
           \<and> latest \<in> set reposData
           \<and> (\<forall>x\<in>set reposData. t x \<le> t latest)
           \<and> generateAiSummary P userData (sortRepos P reposData) =
             ''This GitHub profile belongs to ''
             @ (case profile_name userData of
                  None \<Rightarrow> login userData
                | Some n \<Rightarrow> if n = [] then login userData else n)
             @ '', who joined GitHub in ''
             @ (case parseDate P (created_at userData) of
                  None \<Rightarrow> ''NaN''
                | Some ms \<Rightarrow> showInt (YearFromTime (ms + localTZA P ms)))
             @ ''. They have '' @ showInt (public_repos userData)
             @ '' public repositories, '' @ showInt (followers userData)
             @ '' followers, and are following '' @ showInt (following userData)
             @ '' users. Their most popular repository is '' @ [CHR 0x22] @ name latest
             @ [CHR 0x22] @ '' with '' @ showInt (stargazers_count latest) @ '' stars.''"
    using head by auto
  show "sorted_wrt (\<lambda>a b. t b \<le> t a) reposData \<longrightarrow> sortRepos P reposData = reposData"
    using sortRepos_sorted_id [OF assms(1)] by blast
qed

text \<open>
  The scenario: the repositories A and B sort to \<open>[B, A]\<close>, and the summary stored by
  a search for \<open>ada\<close> names 2015, the counts 2, 10 and 1, and B with 20 stars.
\<close>

theorem summary_highlights_latest_witness:
  "getTime utcPlatform (updated_at repoA) = Some (timeOf utcPlatform repoA)
   \<and> getTime utcPlatform (updated_at repoB) = Some (timeOf utcPlatform repoB)
   \<and> [repoA, repoB] \<noteq> []
   \<and> sortRepos utcPlatform [repoA, repoB] = [repoB, repoA]
   \<and> timeOf utcPlatform repoA \<le> timeOf utcPlatform repoB
   \<and> generateAiSummary utcPlatform adaProfile (sortRepos utcPlatform [repoA, repoB]) =
       ''This GitHub profile belongs to ada, who joined GitHub in 2015. They have 2 public repositories, 10 followers, and are following 1 users. Their most popular repository is ''
       @ [CHR 0x22] @ ''B'' @ [CHR 0x22] @ '' with 20 stars.''
   \<and> aiSummary (fst (fetchGitHubData utcPlatform sampleNetwork (initialState\<lparr>username := ''ada''\<rparr>))) =
       generateAiSummary utcPlatform adaProfile (sortRepos utcPlatform [repoA, repoB])"
proof -
  have valid: "\<forall>x\<in>set [repoA, repoB]. getTime utcPlatform (updated_at x) = Some (timeOf utcPlatform x)"
    by (simp add: timeOf_def scenario_times)
  have nonempty: "[repoA, repoB] \<noteq> []" by simp
  have order: "sortRepos utcPlatform [repoA, repoB] = [repoB, repoA]"
    by (simp add: sortRepos_def sortBy_def sortCompare_def byUpdatedDesc_def scenario_times)
  have year: "parseDate utcPlatform (created_at adaProfile) = Some 1433116800000"
    by code_simp
  have shown: "showInt (YearFromTime 1433116800000) = ''2015''"
    "showInt 2 = ''2''" "showInt 10 = ''10''" "showInt 1 = ''1''" "showInt 20 = ''20''"
    by code_simp+
  obtain latest others where head: "sortRepos utcPlatform [repoA, repoB] = latest # others"
    and newest: "\<forall>x\<in>set [repoA, repoB]. timeOf utcPlatform x \<le> timeOf utcPlatform latest"
    and sentence: "generateAiSummary utcPlatform adaProfile (sortRepos utcPlatform [repoA, repoB]) =
             ''This GitHub profile belongs to ''
             @ (case profile_name adaProfile of
                  None \<Rightarrow> login adaProfile
                | Some n \<Rightarrow> if n = [] then login adaProfile else n)
             @ '', who joined GitHub in ''
             @ (case parseDate utcPlatform (created_at adaProfile) of
                  None \<Rightarrow> ''NaN''
                | Some ms \<Rightarrow> showInt (YearFromTime (ms + localTZA utcPlatform ms)))
             @ ''. They have '' @ showInt (public_repos adaProfile)
             @ '' public repositories, '' @ showInt (followers adaProfile)
             @ '' followers, and are following '' @ showInt (following adaProfile)
             @ '' users. Their most popular repository is '' @ [CHR 0x22] @ name latest
             @ [CHR 0x22] @ '' with '' @ showInt (stargazers_count latest) @ '' stars.''"
    using summary_highlights_latest [OF valid nonempty, of adaProfile] by blast
  have latest: "latest = repoB" using head order by simp
  have summary: "generateAiSummary utcPlatform adaProfile (sortRepos utcPlatform [repoA, repoB]) =
       ''This GitHub profile belongs to ada, who joined GitHub in 2015. They have 2 public repositories, 10 followers, and are following 1 users. Their most popular repository is ''
       @ [CHR 0x22] @ ''B'' @ [CHR 0x22] @ '' with 20 stars.''"
    unfolding sentence latest year
    by (simp add: adaProfile_def repoB_def sampleRepo_def utcPlatform_def shown)
  have later: "timeOf utcPlatform repoA \<le> timeOf utcPlatform repoB"
    using newest unfolding latest by simp
  have "aiSummary (fst (fetchGitHubData utcPlatform sampleNetwork (initialState\<lparr>username := ''ada''\<rparr>))) =
       generateAiSummary utcPlatform adaProfile (sortRepos utcPlatform [repoA, repoB])"
    by (simp add: fetchGitHubData_def tryBlock_def sampleNetwork_def adaProfile_def Let_def
        Array_sort_def)
  then show ?thesis using valid order summary later by simp
qed

text \<open>
  Claim C9 as stated speaks of a single sentence with the join year taken from
  \<open>created_at\<close>. The text has three sentences (three full stops in the scenario's
  summary), and its year is the one of the browser's local time: for a profile created
  on 2015-01-01, which is the year 2015 in UTC, a browser eight hours behind UTC writes
  2014.
\<close>

theorem summary_year_is_local:
  "created_at newYearProfile = ''2015-01-01''
   \<and> getFullYear utcPlatform (created_at newYearProfile) = Some 2015
   \<and> getFullYear pacificPlatform (created_at newYearProfile) = Some 2014
   \<and> generateAiSummary pacificPlatform newYearProfile [repoB, repoA] =
       ''This GitHub profile belongs to ada, who joined GitHub in 2014. They have 2 public repositories, 10 followers, and are following 1 users. Their most popular repository is ''
       @ [CHR 0x22] @ ''B'' @ [CHR 0x22] @ '' with 20 stars.''
   \<and> count_list (generateAiSummary utcPlatform adaProfile [repoB, repoA]) CHR ''.'' = 3"
  by code_simp

text \<open>
  Claim C1 fails on the code: for the empty list the clause about the highlighted
  repository is still written, with the word \<open>undefined\<close> for the name and for the
  star count. The function does return a text.
\<close>

theorem summary_of_empty_list:
  "generateAiSummary P userData [] =
     ''This GitHub profile belongs to '' @ nameOrLogin userData
     @ '', who joined GitHub in '' @ showNumber (getFullYear P (created_at userData))
     @ ''. They have '' @ showInt (public_repos userData)
     @ '' public repositories, '' @ showInt (followers userData)
     @ '' followers, and are following '' @ showInt (following userData)
     @ '' users. Their most popular repository is '' @ [CHR 0x22] @ ''undefined''
     @ [CHR 0x22] @ '' with undefined stars.''
   \<and> generateAiSummary utcPlatform adaProfile [] =
     ''This GitHub profile belongs to ada, who joined GitHub in 2015. They have 2 public repositories, 10 followers, and are following 1 users. Their most popular repository is ''
     @ [CHR 0x22] @ ''undefined'' @ [CHR 0x22] @ '' with undefined stars.''"
proof
  show "generateAiSummary P userData [] =
     ''This GitHub profile belongs to '' @ nameOrLogin userData
     @ '', who joined GitHub in '' @ showNumber (getFullYear P (created_at userData))
     @ ''. They have '' @ showInt (public_repos userData)
     @ '' public repositories, '' @ showInt (followers userData)
     @ '' followers, and are following '' @ showInt (following userData)
     @ '' users. Their most popular repository is '' @ [CHR 0x22] @ ''undefined''
     @ [CHR 0x22] @ '' with undefined stars.''"
    by (simp add: generateAiSummary_def)
  show "generateAiSummary utcPlatform adaProfile [] =
     ''This GitHub profile belongs to ada, who joined GitHub in 2015. They have 2 public repositories, 10 followers, and are following 1 users. Their most popular repository is ''
     @ [CHR 0x22] @ ''undefined'' @ [CHR 0x22] @ '' with undefined stars.''"
    by code_simp
qed

section \<open>The language aggregator\<close>

lemma languagesCounted_Nil: "languagesCounted [] = []"
  by (simp add: languagesCounted_def)

lemma languagesCounted_Cons:
  "languagesCounted (r # rs) =
     (case language r of None \<Rightarrow> [] | Some l \<Rightarrow> if l = [] then [] else [l]) @ languagesCounted rs"
  by (simp add: languagesCounted_def)

lemma languagesCounted_nonempty: "l \<in> set (languagesCounted rs) \<Longrightarrow> l \<noteq> []"
  by (induction rs) (auto simp: languagesCounted_Nil languagesCounted_Cons split: option.splits if_splits)

lemma count_languagesCounted:
  "l \<noteq> [] \<Longrightarrow> count_list (languagesCounted rs) l = length (filter (\<lambda>r. language r = Some l) rs)"
  by (induction rs) (auto simp: languagesCounted_Nil languagesCounted_Cons split: option.splits)

lemma length_languagesCounted:
  "length (languagesCounted rs) =
   length (filter (\<lambda>r. language r \<noteq> None \<and> language r \<noteq> Some []) rs)"
  by (induction rs) (auto simp: languagesCounted_Nil languagesCounted_Cons split: option.splits)

lemma keys_putOwn:
  "map fst (putOwn k v obj) = (if k \<in> fst ` set obj then map fst obj else map fst obj @ [k])"
  by (induction obj) auto

lemma map_of_putOwn: "map_of (putOwn k v obj) = (map_of obj)(k \<mapsto> v)"
  by (induction obj) auto

lemma keys_setProp:
  "k \<noteq> ''__proto__'' \<Longrightarrow>
   map fst (setProp obj k v) = (if k \<in> fst ` set obj then map fst obj else map fst obj @ [k])"
  by (simp add: setProp_def keys_putOwn)

lemma map_of_setProp:
  "k \<noteq> ''__proto__'' \<Longrightarrow> map_of (setProp obj k v) = (map_of obj)(k \<mapsto> v)"
  by (simp add: setProp_def map_of_putOwn)

lemma keys_countLanguage:
  assumes "''__proto__'' \<notin> set (languagesCounted [r])"
  shows "map fst (countLanguage P acc r) =
         map fst acc @ filter (\<lambda>l. l \<notin> set (map fst acc)) (languagesCounted [r])"
proof (cases "language r")
  case None
  then show ?thesis by (simp add: countLanguage_def languagesCounted_def)
next
  case (Some l)
  show ?thesis
  proof (cases "l = []")
    case True
    then show ?thesis using Some by (simp add: countLanguage_def languagesCounted_def)
  next
    case False
    then have "l \<noteq> ''__proto__''" using assms Some by (auto simp: languagesCounted_def)
    then show ?thesis
      using Some False by (simp add: countLanguage_def languagesCounted_def keys_setProp)
  qed
qed

lemma keys_foldl:
  assumes "''__proto__'' \<notin> set (languagesCounted rs)"
  shows "map fst (foldl (countLanguage P) acc rs) =
         map fst acc @ filter (\<lambda>l. l \<notin> set (map fst acc)) (firstOccurrences (languagesCounted rs))"
  using assms
proof (induction rs arbitrary: acc)
  case Nil
  then show ?case by (simp add: languagesCounted_def)
next
  case (Cons r rs)
  have split: "languagesCounted (r # rs) = languagesCounted [r] @ languagesCounted rs"
    by (simp add: languagesCounted_def)
  have r: "''__proto__'' \<notin> set (languagesCounted [r])"
    and rs: "''__proto__'' \<notin> set (languagesCounted rs)"
    using Cons.prems unfolding split by simp_all
  let ?F = "firstOccurrences (languagesCounted rs)"
  have step: "map fst (foldl (countLanguage P) acc (r # rs)) =
        map fst (countLanguage P acc r)
        @ filter (\<lambda>l. l \<notin> set (map fst (countLanguage P acc r))) ?F"
    using Cons.IH [OF rs, of "countLanguage P acc r"] by simp
  show ?case
  proof (cases "languagesCounted [r]")
    case Nil
    then show ?thesis
      using step keys_countLanguage [OF r, of P acc] unfolding split by simp
  next
    case (Cons l ls)
    then have one: "languagesCounted [r] = [l]"
      by (auto simp: languagesCounted_def split: option.splits if_splits)
    show ?thesis
    proof (cases "l \<in> set (map fst acc)")
      case True
      then have "filter (\<lambda>y. y \<notin> set (map fst acc)) (filter (\<lambda>y. y \<noteq> l) ?F)
               = filter (\<lambda>y. y \<notin> set (map fst acc)) ?F"
        by (auto intro: filter_cong)
      then show ?thesis
        using step keys_countLanguage [OF r, of P acc] True unfolding split one by simp
    next
      case False
      then have "filter (\<lambda>y. y \<notin> set (map fst acc)) (filter (\<lambda>y. y \<noteq> l) ?F)
               = filter (\<lambda>y. y \<notin> set (map fst acc @ [l])) ?F"
        by (auto intro: filter_cong)
      then show ?thesis
        using step keys_countLanguage [OF r, of P acc] False unfolding split one
        by (simp add: conj_commute)
    qed
  qed
qed

lemma keys_languageUsage:
  assumes "''__proto__'' \<notin> set (languagesCounted rs)"
  shows "map fst (languageUsage P rs) = firstOccurrences (languagesCounted rs)"
  using keys_foldl [OF assms, of P "[]"] by (simp add: languageUsage_def)

lemma getProp_counted:
  assumes "holdsCounts acc f" and "l \<notin> set objectPrototypeNames"
  shows "getProp acc l = (if f l = 0 then Prim UndefinedV else Prim (NumV (int (f l))))"
  using assms by (simp add: holdsCounts_def getProp_def objectPrototypeNames_def)

lemma holdsCounts_countLanguage:
  assumes "holdsCounts acc f" and "\<forall>l\<in>set (languagesCounted [r]). l \<notin> set objectPrototypeNames"
  shows "holdsCounts (countLanguage P acc r) (\<lambda>k. f k + count_list (languagesCounted [r]) k)"
proof (cases "language r")
  case None
  then show ?thesis using assms(1) by (simp add: countLanguage_def languagesCounted_def)
next
  case (Some l)
  show ?thesis
  proof (cases "l = []")
    case True
    then show ?thesis using assms(1) Some by (simp add: countLanguage_def languagesCounted_def)
  next
    case False
    then have one: "languagesCounted [r] = [l]" using Some by (simp add: languagesCounted_def)
    then have plain: "l \<notin> set objectPrototypeNames" using assms(2) by simp
    then have proto: "l \<noteq> ''__proto__''" by (auto simp: objectPrototypeNames_def)
    have "jsAdd P (if truthy (getProp acc l) then getProp acc l else Prim (NumV 0)) (Prim (NumV 1))
          = NumV (int (f l) + 1)"
      by (simp add: getProp_counted [OF assms(1) plain] jsAdd_def)
    then have "countLanguage P acc r = setProp acc l (NumV (int (f l) + 1))"
      using Some False by (simp add: countLanguage_def)
    then show ?thesis
      using assms(1) proto unfolding one
      by (simp add: holdsCounts_def map_of_setProp)
  qed
qed

lemma holdsCounts_foldl:
  assumes "holdsCounts acc f" and "\<forall>l\<in>set (languagesCounted rs). l \<notin> set objectPrototypeNames"
  shows "holdsCounts (foldl (countLanguage P) acc rs) (\<lambda>k. f k + count_list (languagesCounted rs) k)"
  using assms
proof (induction rs arbitrary: acc f)
  case Nil
  then show ?case by (simp add: languagesCounted_def)
next
  case (Cons r rs)
  have split: "languagesCounted (r # rs) = languagesCounted [r] @ languagesCounted rs"
    by (simp add: languagesCounted_def)
  have r: "\<forall>l\<in>set (languagesCounted [r]). l \<notin> set objectPrototypeNames"
    and rs: "\<forall>l\<in>set (languagesCounted rs). l \<notin> set objectPrototypeNames"
    using Cons.prems(2) unfolding split by simp_all
  have "holdsCounts (foldl (countLanguage P) (countLanguage P acc r) rs)
          (\<lambda>k. (f k + count_list (languagesCounted [r]) k) + count_list (languagesCounted rs) k)"
    using holdsCounts_countLanguage [OF Cons.prems(1) r] rs by (rule Cons.IH)
  then show ?case unfolding split by (simp add: add.assoc)
qed

lemma holdsCounts_languageUsage:
  assumes "\<forall>l\<in>set (languagesCounted rs). l \<notin> set objectPrototypeNames"
  shows "holdsCounts (languageUsage P rs) (count_list (languagesCounted rs))"
proof -
  have "holdsCounts [] (\<lambda>k. 0)" by (simp add: holdsCounts_def)
  from holdsCounts_foldl [OF this assms, of P] show ?thesis by (simp add: languageUsage_def)
qed

lemma set_Object_keys: "set (Object_keys obj) = fst ` set obj"
  by (auto simp: Object_keys_def)

lemma mset_Object_keys: "mset (Object_keys obj) = mset (map fst obj)"
  by (simp add: Object_keys_def)

lemma chart_languages: "map tally_language (donutChartData rnd usage) = Object_keys usage"
proof -
  have "map tally_language (donutChartData rnd usage) = map snd (enumerate 0 (Object_keys usage))"
    by (simp add: donutChartData_def case_prod_unfold comp_def)
  then show ?thesis by simp
qed

lemma chart_entry:
  assumes "e \<in> set (donutChartData rnd usage)"
  shows "tally_language e \<in> set (Object_keys usage)"
    and "tally_count e = getProp usage (tally_language e)"
  using assms by (auto simp: donutChartData_def in_set_enumerate_eq)

lemma totalLanguages_numbers:
  assumes "\<forall>e\<in>set chart. tally_count e = Prim (NumV (c (tally_language e)))"
  shows "foldl (\<lambda>acc curr. jsAdd P (Prim acc) (tally_count curr)) (NumV a) chart
         = NumV (a + sum_list (map c (map tally_language chart)))"
  using assms by (induction chart arbitrary: a) (simp_all add: jsAdd_def add.assoc)

lemma sum_counts:
  assumes "distinct ks" and "set ks = set ls"
  shows "sum_list (map (\<lambda>k. int (count_list ls k)) ks) = int (length ls)"
proof -
  have "sum_list (map (\<lambda>k. int (count_list ls k)) ks) = (\<Sum>k\<in>set ks. int (count_list ls k))"
    using assms(1) by (simp add: sum_list_distinct_conv_sum_set)
  also have "\<dots> = int (\<Sum>k\<in>set ls. count_list ls k)" using assms(2) by simp
  also have "\<dots> = int (length ls)" by (simp add: sum_count_set)
  finally show ?thesis .
qed

lemma set_firstOccurrences: "set (firstOccurrences xs) = set xs"
  by (induction xs) auto

lemma distinct_firstOccurrences: "distinct (firstOccurrences xs)"
  by (induction xs) (auto simp: set_firstOccurrences)

lemma mixed_languages: "languagesCounted mixedRepos = [''Go'', ''TypeScript'', ''Go'', ''1'']"
  by (simp add: languagesCounted_def mixedRepos_def sampleRepo_def)

text \<open>
  Why the names inherited from \<open>Object.prototype\<close> are set apart below: for the
  language \<open>constructor\<close> the read \<open>acc[k]\<close> finds the inherited function, and the
  count becomes a text; for \<open>__proto__\<close> the assignment is swallowed by the inherited
  setter, and there is no tally.
\<close>

lemma inherited_names_tally:
  "map tally_language (donutChartData fixedDraws (languageUsage utcPlatform inheritedNameRepos))
     = [''constructor'']"
  "map tally_count (donutChartData fixedDraws (languageUsage utcPlatform inheritedNameRepos))
     = [Prim (StrV ''function Object() { [native code] }1'')]"
  by code_simp+

text \<open>
  Claim C4, as the code has it. Let no language be a name that a plain object inherits
  from \<open>Object.prototype\<close>. Then every tally is for a language that is not empty, its
  count is the number of repositories with that language and is at least 1; there is
  exactly one tally for each language that some repository has, null and the empty
  string apart (they get no tally of any kind); and \<open>totalLanguages\<close>, the sum of the
  counts, is the number of repositories whose language is neither null nor empty.
\<close>

theorem language_tallies:
  assumes "\<forall>l\<in>set (languagesCounted rs). l \<notin> set objectPrototypeNames"
  shows "(\<forall>e\<in>set (donutChartData rnd (languageUsage P rs)).
            tally_language e \<noteq> []
            \<and> tally_count e =
                Prim (NumV (int (length (filter (\<lambda>r. language r = Some (tally_language e)) rs))))
            \<and> 1 \<le> length (filter (\<lambda>r. language r = Some (tally_language e)) rs))
       \<and> distinct (map tally_language (donutChartData rnd (languageUsage P rs)))
       \<and> set (map tally_language (donutChartData rnd (languageUsage P rs)))
           = {l. l \<noteq> [] \<and> (\<exists>r\<in>set rs. language r = Some l)}
       \<and> totalLanguages P (donutChartData rnd (languageUsage P rs))
           = NumV (int (length (filter (\<lambda>r. language r \<noteq> None \<and> language r \<noteq> Some []) rs)))"
proof -
  let ?ls = "languagesCounted rs"
  let ?usage = "languageUsage P rs"
  let ?chart = "donutChartData rnd ?usage"
  have proto: "''__proto__'' \<notin> set ?ls"
    using assms by (auto simp: objectPrototypeNames_def)
  have keys: "map fst ?usage = firstOccurrences ?ls"
    using proto by (rule keys_languageUsage)
  have counts: "holdsCounts ?usage (count_list ?ls)"
    using assms by (rule holdsCounts_languageUsage)
  have key_set: "set (Object_keys ?usage) = set ?ls"
    using keys set_Object_keys [of ?usage] set_firstOccurrences [of ?ls]
    by (metis set_map)
  have key_distinct: "distinct (Object_keys ?usage)"
    using mset_Object_keys [of ?usage] keys distinct_firstOccurrences [of ?ls]
    by (metis mset_eq_imp_distinct_iff)
  have entry: "tally_language e \<noteq> []
      \<and> tally_count e = Prim (NumV (int (count_list ?ls (tally_language e))))
      \<and> 1 \<le> count_list ?ls (tally_language e)"
    if "e \<in> set ?chart" for e
  proof -
    have member: "tally_language e \<in> set ?ls"
      using chart_entry(1) [OF that] key_set by simp
    then have plain: "tally_language e \<notin> set objectPrototypeNames" using assms by simp
    have positive: "0 < count_list ?ls (tally_language e)"
      using member count_list_0_iff [of ?ls "tally_language e"] by simp
    have "tally_count e = getProp ?usage (tally_language e)"
      by (rule chart_entry(2) [OF that])
    also have "\<dots> = Prim (NumV (int (count_list ?ls (tally_language e))))"
      using positive by (simp add: getProp_counted [OF counts plain])
    finally show ?thesis
      using languagesCounted_nonempty [OF member] positive by simp
  qed
  have each: "\<forall>e\<in>set ?chart.
            tally_language e \<noteq> []
            \<and> tally_count e =
                Prim (NumV (int (length (filter (\<lambda>r. language r = Some (tally_language e)) rs))))
            \<and> 1 \<le> length (filter (\<lambda>r. language r = Some (tally_language e)) rs)"
  proof
    fix e assume "e \<in> set ?chart"
    from entry [OF this] have named: "tally_language e \<noteq> []"
      and counted: "tally_count e = Prim (NumV (int (count_list ?ls (tally_language e))))"
      and positive: "1 \<le> count_list ?ls (tally_language e)"
      by simp_all
    show "tally_language e \<noteq> []
            \<and> tally_count e =
                Prim (NumV (int (length (filter (\<lambda>r. language r = Some (tally_language e)) rs))))
            \<and> 1 \<le> length (filter (\<lambda>r. language r = Some (tally_language e)) rs)"
      using named counted positive unfolding count_languagesCounted [OF named] by simp
  qed
  have languages: "set (map tally_language ?chart) = {l. l \<noteq> [] \<and> (\<exists>r\<in>set rs. language r = Some l)}"
  proof -
    have "set ?ls = {l. l \<noteq> [] \<and> (\<exists>r\<in>set rs. language r = Some l)}"
      by (induction rs)
        (auto simp: languagesCounted_Nil languagesCounted_Cons split: option.splits if_splits)
    then show ?thesis by (simp add: chart_languages key_set)
  qed
  have total: "totalLanguages P ?chart = NumV (int (length ?ls))"
  proof -
    have "\<forall>e\<in>set ?chart. tally_count e = Prim (NumV (int (count_list ?ls (tally_language e))))"
      using entry by simp
    then have "totalLanguages P ?chart
        = NumV (0 + sum_list (map (\<lambda>k. int (count_list ?ls k)) (map tally_language ?chart)))"
      unfolding totalLanguages_def by (rule totalLanguages_numbers)
    also have "\<dots> = NumV (int (length ?ls))"
      using sum_counts [OF key_distinct key_set] by (simp add: chart_languages)
    finally show ?thesis .
  qed
  show ?thesis
    using each languages total key_distinct
    by (simp add: chart_languages length_languagesCounted)
qed

text \<open>
  Six repositories (Go, none, TypeScript, Go, empty, \<open>1\<close>): five have a language
  that is not null, four are counted, in the tallies 1, 2 and 1.
\<close>

theorem language_tallies_witness:
  "languagesCounted mixedRepos = [''Go'', ''TypeScript'', ''Go'', ''1'']
   \<and> ''Go'' \<notin> set objectPrototypeNames
   \<and> ''TypeScript'' \<notin> set objectPrototypeNames
   \<and> ''1'' \<notin> set objectPrototypeNames
   \<and> length (filter hasLanguage mixedRepos) = 5
   \<and> totalLanguages utcPlatform (donutChartData fixedDraws (languageUsage utcPlatform mixedRepos))
       = NumV 4
   \<and> map tally_count (donutChartData fixedDraws (languageUsage utcPlatform mixedRepos))
       = [Prim (NumV 1), Prim (NumV 2), Prim (NumV 1)]"
proof -
  have plain: "''Go'' \<notin> set objectPrototypeNames" "''TypeScript'' \<notin> set objectPrototypeNames"
    "''1'' \<notin> set objectPrototypeNames"
    by (simp_all add: objectPrototypeNames_def objectPrototypeFns_def)
  then have valid: "\<forall>l\<in>set (languagesCounted mixedRepos). l \<notin> set objectPrototypeNames"
    unfolding mixed_languages by simp
  have "length (filter (\<lambda>r. language r \<noteq> None \<and> language r \<noteq> Some []) mixedRepos) = 4"
    by (simp add: mixedRepos_def sampleRepo_def)
  then have total: "totalLanguages utcPlatform
      (donutChartData fixedDraws (languageUsage utcPlatform mixedRepos)) = NumV 4"
    using language_tallies [OF valid, of fixedDraws utcPlatform] by simp
  have "map tally_count (donutChartData fixedDraws (languageUsage utcPlatform mixedRepos))
       = [Prim (NumV 1), Prim (NumV 2), Prim (NumV 1)]"
    by code_simp
  moreover have "length (filter hasLanguage mixedRepos) = 5"
    by (simp add: mixedRepos_def sampleRepo_def hasLanguage_def)
  ultimately show ?thesis using plain total mixed_languages by simp
qed

text \<open>
  Claim C4 as stated says that the counts add up to the number of repositories with a
  non-null language. One repository whose language is the empty string has a non-null
  language and no tally: \<open>if (repo.language)\<close> skips it.
\<close>

theorem tallies_skip_empty_language:
  "length (filter hasLanguage emptyLanguageRepos) = 1
   \<and> donutChartData fixedDraws (languageUsage utcPlatform emptyLanguageRepos) = []
   \<and> totalLanguages utcPlatform
        (donutChartData fixedDraws (languageUsage utcPlatform emptyLanguageRepos)) = NumV 0"
  by (simp add: emptyLanguageRepos_def sampleRepo_def hasLanguage_def languageUsage_def
      countLanguage_def donutChartData_def Object_keys_def totalLanguages_def)

text \<open>
  Claim C6, as the code has it. With no language called \<open>__proto__\<close>, the tallies come
  in the order of \<open>Object.keys\<close>: first the languages that are array indices, in
  ascending numeric order, then all others in the order of their first occurrence in
  the input. When no language is an array index, that is the order of first occurrence.
\<close>

theorem tally_order:
  assumes "''__proto__'' \<notin> set (languagesCounted rs)"
  shows "map tally_language (donutChartData rnd (languageUsage P rs)) =
           sort_key digitsValue (filter isArrayIndex (firstOccurrences (languagesCounted rs)))
           @ filter (\<lambda>l. \<not> isArrayIndex l) (firstOccurrences (languagesCounted rs))
       \<and> ((\<forall>l\<in>set (languagesCounted rs). \<not> isArrayIndex l) \<longrightarrow>
            map tally_language (donutChartData rnd (languageUsage P rs))
            = firstOccurrences (languagesCounted rs))"
proof -
  have keys: "map fst (languageUsage P rs) = firstOccurrences (languagesCounted rs)"
    using assms by (rule keys_languageUsage)
  have order: "map tally_language (donutChartData rnd (languageUsage P rs)) =
           sort_key digitsValue (filter isArrayIndex (firstOccurrences (languagesCounted rs)))
           @ filter (\<lambda>l. \<not> isArrayIndex l) (firstOccurrences (languagesCounted rs))"
    by (simp add: chart_languages Object_keys_def keys)
  moreover have "map tally_language (donutChartData rnd (languageUsage P rs))
            = firstOccurrences (languagesCounted rs)"
    if "\<forall>l\<in>set (languagesCounted rs). \<not> isArrayIndex l"
  proof -
    have none: "\<forall>l\<in>set (firstOccurrences (languagesCounted rs)). \<not> isArrayIndex l"
      using that by (simp add: set_firstOccurrences)
    then have "filter isArrayIndex (firstOccurrences (languagesCounted rs)) = []"
      by (simp add: filter_empty_conv)
    moreover have "filter (\<lambda>l. \<not> isArrayIndex l) (firstOccurrences (languagesCounted rs))
        = firstOccurrences (languagesCounted rs)"
      using none by (simp add: filter_id_conv)
    ultimately show ?thesis using order by simp
  qed
  ultimately show ?thesis by blast
qed

text \<open>In the mixed list Go comes first, yet the tally for \<open>1\<close> is listed first.\<close>

theorem tally_order_witness:
  "''__proto__'' \<notin> set (languagesCounted mixedRepos)
   \<and> firstOccurrences (languagesCounted mixedRepos) = [''Go'', ''TypeScript'', ''1'']
   \<and> map tally_language (donutChartData fixedDraws (languageUsage utcPlatform mixedRepos))
       = [''1'', ''Go'', ''TypeScript'']"
proof -
  have valid: "''__proto__'' \<notin> set (languagesCounted mixedRepos)"
    unfolding mixed_languages by simp
  have first: "firstOccurrences (languagesCounted mixedRepos) = [''Go'', ''TypeScript'', ''1'']"
    unfolding mixed_languages by simp
  have index: "isArrayIndex ''1''" "\<not> isArrayIndex ''Go''" "\<not> isArrayIndex ''TypeScript''"
    by code_simp+
  have "map tally_language (donutChartData fixedDraws (languageUsage utcPlatform mixedRepos))
       = [''1'', ''Go'', ''TypeScript'']"
    using tally_order [OF valid, of fixedDraws utcPlatform] unfolding first
    by (simp add: index)
  then show ?thesis using valid first by simp
qed

text \<open>
  Claim C6 as stated says that the order is that of first occurrence also for a
  language whose name is a numeral. For Go followed by \<open>1\<close> the tallies are \<open>1\<close>, Go.
\<close>

theorem tally_order_numeric_first:
  "firstOccurrences (languagesCounted numericLanguageRepos) = [''Go'', ''1'']
   \<and> map tally_language (donutChartData fixedDraws (languageUsage utcPlatform numericLanguageRepos))
       = [''1'', ''Go'']"
proof
  show "firstOccurrences (languagesCounted numericLanguageRepos) = [''Go'', ''1'']"
    by (simp add: languagesCounted_def numericLanguageRepos_def sampleRepo_def)
  show "map tally_language (donutChartData fixedDraws (languageUsage utcPlatform numericLanguageRepos))
       = [''1'', ''Go'']"
    by code_simp
qed

end
